theory Spec2Isabelle
  imports Main "HOL-Library.Multiset" "HOL-Library.Char_ord" "HOL-Library.List_Lexorder"
begin

section \<open>FTSE 100 scraper, part 2: a model of \<^verbatim>\<open>ftse100_scraper_part_2.py\<close>\<close>

text \<open>
  The script has five functions besides \<^verbatim>\<open>main\<close>:
  \<^verbatim>\<open>months_between_date\<close>, \<^verbatim>\<open>common_constituents\<close>, \<^verbatim>\<open>match_company_symbol\<close>,
  \<^verbatim>\<open>scrape_constituents_symbols\<close> and \<^verbatim>\<open>scrape_daily_returns\<close>.
  Each is embedded below as a HOL function. A Python exception is a value \<open>Inl e\<close> of the
  result type \<open>error + 'a\<close>. The calls into \<^verbatim>\<open>investpy\<close> are parameters of the
  functions that make them; a call that raises is the value \<open>None\<close>.
\<close>

datatype error =
    ValueError    \<comment> \<open>\<^verbatim>\<open>datetime.strptime\<close> on a string that is not a date\<close>
  | IndexError    \<comment> \<open>\<^verbatim>\<open>symbols.iat[0, 1]\<close> on a table with no row\<close>
  | KeyError      \<comment> \<open>a label that \<^verbatim>\<open>.loc\<close> does not find\<close>
  | FetchError    \<comment> \<open>an exception raised inside \<^verbatim>\<open>investpy\<close>\<close>

subsection \<open>Calendar dates and \<^verbatim>\<open>datetime.strptime(s, "%Y-%m-%d")\<close>\<close>

record date =
  year :: int
  month :: int
  day :: int

definition date_le :: "date \<Rightarrow> date \<Rightarrow> bool" where
  "date_le a b \<longleftrightarrow>
     year a < year b \<or>
     (year a = year b \<and> (month a < month b \<or> (month a = month b \<and> day a \<le> day b)))"

definition is_digit :: "char \<Rightarrow> bool" where
  "is_digit c \<longleftrightarrow> c \<in> set ''0123456789''"

definition digit_val :: "char \<Rightarrow> int" where
  "digit_val c = int (of_char c) - 48"

text \<open>
  The directive \<^verbatim>\<open>%m\<close> is the regular expression \<^verbatim>\<open>1[0-2]|0[1-9]|[1-9]\<close> and
  \<^verbatim>\<open>%d\<close> is \<^verbatim>\<open>3[0-1]|[1-2]\d|0[1-9]|[1-9]| [1-9]\<close>. The month is followed by
  a literal \<^verbatim>\<open>-\<close> and the day by the end of the string, so each directive has to
  match its whole field.
\<close>

fun parse_month :: "string \<Rightarrow> int option" where
  "parse_month [a] =
     (if is_digit a \<and> a \<noteq> CHR ''0'' then Some (digit_val a) else None)"
| "parse_month [a, b] =
     (if a = CHR ''1'' \<and> b \<in> set ''012'' then Some (10 + digit_val b)
      else if a = CHR ''0'' \<and> is_digit b \<and> b \<noteq> CHR ''0'' then Some (digit_val b)
      else None)"
| "parse_month _ = None"

fun parse_day :: "string \<Rightarrow> int option" where
  "parse_day [a] =
     (if is_digit a \<and> a \<noteq> CHR ''0'' then Some (digit_val a) else None)"
| "parse_day [a, b] =
     (if a = CHR ''3'' \<and> b \<in> set ''01'' then Some (30 + digit_val b)
      else if a \<in> set ''12'' \<and> is_digit b then Some (10 * digit_val a + digit_val b)
      else if a \<in> set ''0 '' \<and> is_digit b \<and> b \<noteq> CHR ''0'' then Some (digit_val b)
      else None)"
| "parse_day _ = None"

definition is_leap :: "int \<Rightarrow> bool" where
  "is_leap y \<longleftrightarrow> y mod 4 = 0 \<and> (y mod 100 \<noteq> 0 \<or> y mod 400 = 0)"

definition days_in_month :: "int \<Rightarrow> int \<Rightarrow> int" where
  "days_in_month y m =
     (if m = 2 then (if is_leap y then 29 else 28)
      else if m \<in> {4, 6, 9, 11} then 30 else 31)"

text \<open>
  \<^verbatim>\<open>%Y\<close> is four digits. The fields are handed to the \<^verbatim>\<open>datetime\<close> constructor,
  which raises \<^verbatim>\<open>ValueError\<close> for the year 0 and for a day the month does not have.
  Strings are byte strings here, so only the ASCII digits count as digits.
\<close>

fun strptime :: "string \<Rightarrow> error + date" where
  "strptime (y1 # y2 # y3 # y4 # dash # rest) =
     (if is_digit y1 \<and> is_digit y2 \<and> is_digit y3 \<and> is_digit y4 \<and> dash = CHR ''-'' then
        (case (parse_month (takeWhile (\<lambda>c. c \<noteq> CHR ''-'') rest),
               dropWhile (\<lambda>c. c \<noteq> CHR ''-'') rest) of
           (Some m, _ # ds) \<Rightarrow>
             (case parse_day ds of
                Some d \<Rightarrow>
                  (let y = 1000 * digit_val y1 + 100 * digit_val y2
                             + 10 * digit_val y3 + digit_val y4
                   in if 1 \<le> y \<and> d \<le> days_in_month y m
                      then Inr \<lparr>year = y, month = m, day = d\<rparr>
                      else Inl ValueError)
              | None \<Rightarrow> Inl ValueError)
         | _ \<Rightarrow> Inl ValueError)
      else Inl ValueError)"
| "strptime _ = Inl ValueError"

subsection \<open>\<^verbatim>\<open>months_between_date\<close>\<close>

text \<open>
  The end date is parsed first, then the start date; either call may raise. The result is
  a Python integer, so it is an \<open>int\<close> and may be zero or negative.
\<close>

definition months_between_date :: "string \<Rightarrow> string \<Rightarrow> error + int" where
  "months_between_date start_date end_date =
     (case strptime end_date of
        Inl e \<Rightarrow> Inl e
      | Inr ed \<Rightarrow>
          (case strptime start_date of
             Inl e \<Rightarrow> Inl e
           | Inr sd \<Rightarrow> Inr ((year ed - year sd) * 12 + (month ed - month sd) + 1)))"

subsection \<open>Tables\<close>

text \<open>
  A \<^verbatim>\<open>DataFrame\<close> is the list of its rows. A membership row has the columns
  \<^verbatim>\<open>Date\<close> and \<^verbatim>\<open>Company\<close>; a matched row has \<^verbatim>\<open>Symbol\<close> as well. The types of the
  cells are parameters: the matcher only compares companies, while the filter reads the
  dates as calendar dates and needs to know which cells are missing (\<open>None\<close> is pandas'
  \<^verbatim>\<open>NaN\<close>). The symbol table that the resolver builds has the columns \<^verbatim>\<open>Company\<close>
  and \<^verbatim>\<open>Symbol\<close> and is a list of pairs.
\<close>

record ('d, 'c) membership =
  Date :: 'd
  Company :: 'c

record ('d, 'c, 's) matched = "('d, 'c) membership" +
  Symbol :: 's

text \<open>\<^verbatim>\<open>df.drop_duplicates(col)\<close> keeps the first row of every value of the column.\<close>

fun drop_duplicates :: "('a \<Rightarrow> 'k) \<Rightarrow> 'a list \<Rightarrow> 'a list" where
  "drop_duplicates key [] = []"
| "drop_duplicates key (x # xs) = x # drop_duplicates key (filter (\<lambda>y. key y \<noteq> key x) xs)"

text \<open>\<^verbatim>\<open>df.iloc[a:b, :]\<close> for \<open>a \<le> b\<close>: the rows at the positions \<open>a, ..., b - 1\<close> that exist.\<close>

definition iloc :: "nat \<Rightarrow> nat \<Rightarrow> 'a list \<Rightarrow> 'a list" where
  "iloc a b xs = take (b - a) (drop a xs)"

subsection \<open>\<^verbatim>\<open>common_constituents\<close>\<close>

text \<open>
  The table is indexed by date: \<open>Date\<close> is the label of a row, of a type \<open>'l\<close> that pandas
  can compare (the strings of the file, or timestamps).
  \<^verbatim>\<open>constituents.loc[start_date:end_date]\<close> is a label slice. The function neither
  sorts the table nor converts its index, so what the slice selects depends on the order
  of the rows and on the kind of index. pandas computes an indexer from the labels, which
  is a slice of positions or an array of positions, and takes the rows at these positions.
\<close>

datatype indexer = Slice nat nat | Positions "nat list"

definition select_rows :: "indexer \<Rightarrow> 'a list \<Rightarrow> 'a list" where
  "select_rows ix rs =
     (case ix of
        Slice a b \<Rightarrow> iloc a b rs
      | Positions ps \<Rightarrow> map (nth rs) (filter (\<lambda>i. i < length rs) ps))"

text \<open>
  What the source does not determine is a parameter: how the index reads the two strings
  as labels (an index of strings takes them as they are; an index of timestamps parses
  them as dates, to the start and to the end of the day, and raises on a string that it
  cannot read), and the indexer on an index that is not in ascending order (which differs
  between the kinds of index and the versions of pandas). On an index in ascending order
  every kind of index finds the two positions by bisection: the first position whose label
  is not below the start, and the position after the last label that is not above the end.
\<close>

record 'l index_kind =
  left_bound :: "string \<Rightarrow> error + 'l"
  right_bound :: "string \<Rightarrow> error + 'l"
  unsorted_indexer :: "'l \<Rightarrow> 'l \<Rightarrow> 'l list \<Rightarrow> error + indexer"

definition slice_indexer ::
  "'l::linorder index_kind \<Rightarrow> string \<Rightarrow> string \<Rightarrow> 'l list \<Rightarrow> error + indexer" where
  "slice_indexer K start_date end_date labels =
     (case left_bound K start_date of
        Inl e \<Rightarrow> Inl e
      | Inr a \<Rightarrow>
          (case right_bound K end_date of
             Inl e \<Rightarrow> Inl e
           | Inr b \<Rightarrow>
               if sorted labels
               then Inr (Slice (length (filter (\<lambda>l. l < a) labels))
                               (length (filter (\<lambda>l. l \<le> b) labels)))
               else unsorted_indexer K a b labels))"

definition loc ::
  "'l::linorder index_kind \<Rightarrow> string \<Rightarrow> string \<Rightarrow> ('l, 'c, 's) matched list \<Rightarrow>
   error + ('l, 'c, 's) matched list" where
  "loc K start_date end_date constituents =
     (case slice_indexer K start_date end_date (map Date constituents) of
        Inl e \<Rightarrow> Inl e
      | Inr ix \<Rightarrow> Inr (select_rows ix constituents))"

text \<open>
  The index of strings (pandas' \<^verbatim>\<open>Index\<close> of dtype object), as \<^verbatim>\<open>read_csv\<close> gives
  it when the dates are not parsed. \<^verbatim>\<open>get_slice_bound\<close> looks the label up: when it
  occurs, its occurrences must be contiguous, and the bound is the position of the first
  one (left) or the position after the last one (right); when it does not occur, the bound
  is found by bisection on an index in ascending or in descending order, and the lookup
  raises \<^verbatim>\<open>KeyError\<close> on any other index.
\<close>

datatype side = Left | Right

definition get_slice_bound :: "'l::linorder list \<Rightarrow> 'l \<Rightarrow> side \<Rightarrow> error + nat" where
  "get_slice_bound labels x sd =
     (if x \<in> set labels then
        (let first = length (takeWhile (\<lambda>l. l \<noteq> x) labels);
             stop = length labels - length (takeWhile (\<lambda>l. l \<noteq> x) (rev labels))
         in if stop - first = count_list labels x
            then Inr (case sd of Left \<Rightarrow> first | Right \<Rightarrow> stop)
            else Inl KeyError)
      else if sorted labels then Inr (length (filter (\<lambda>l. l < x) labels))
      else if sorted (rev labels) then Inr (length (filter (\<lambda>l. x < l) labels))
      else Inl KeyError)"

definition object_slice :: "'l::linorder \<Rightarrow> 'l \<Rightarrow> 'l list \<Rightarrow> error + indexer" where
  "object_slice a b labels =
     (case get_slice_bound labels a Left of
        Inl e \<Rightarrow> Inl e
      | Inr i \<Rightarrow>
          (case get_slice_bound labels b Right of
             Inl e \<Rightarrow> Inl e
           | Inr j \<Rightarrow> Inr (Slice i j)))"

definition object_index :: "string index_kind" where
  "object_index = \<lparr>left_bound = Inr, right_bound = Inr, unsorted_indexer = object_slice\<rparr>"

text \<open>\<^verbatim>\<open>dropna(axis=0, how='any')\<close> drops every row with a missing cell.\<close>

definition dropna :: "('d, 'c option, 's option) matched list \<Rightarrow> ('d, 'c option, 's option) matched list" where
  "dropna constituents = filter (\<lambda>r. Company r \<noteq> None \<and> Symbol r \<noteq> None) constituents"

text \<open>
  \<^verbatim>\<open>value_counts()\<close> pairs every distinct value with the number of its occurrences. The
  order of the pairs is not modelled: pandas sorts them by count, and the order among equal
  counts is not fixed.
\<close>

definition value_counts :: "'a list \<Rightarrow> ('a \<times> nat) list" where
  "value_counts xs = map (\<lambda>x. (x, count_list xs x)) (remdups xs)"

text \<open>The values of the column \<^verbatim>\<open>Symbol\<close> that are not missing.\<close>

definition symbol_column :: "('d, 'c, 's option) matched list \<Rightarrow> 's list" where
  "symbol_column constituents = [s. Some s \<leftarrow> map Symbol constituents]"

text \<open>
  The slice comes first and may raise; \<open>months_between_date\<close> then parses the two strings
  with \<open>strptime\<close> and may raise as well.
\<close>

definition common_constituents ::
  "'l::linorder index_kind \<Rightarrow> ('l, 'c option, 's option) matched list \<Rightarrow> string \<Rightarrow> string \<Rightarrow>
   error + 's list" where
  "common_constituents K constituents start_date end_date =
     (case loc K start_date end_date constituents of
        Inl e \<Rightarrow> Inl e
      | Inr window \<Rightarrow>
          (let constituents' = dropna window in
           case months_between_date start_date end_date of
             Inl e \<Rightarrow> Inl e
           | Inr f \<Rightarrow>
               (let freq = value_counts (symbol_column constituents');
                    symbols = map fst (filter (\<lambda>(s, n). int n = f) freq)
                in Inr symbols)))"

text \<open>
  The count that the specification speaks of, stated on the table itself: the number of
  rows of a symbol whose label lies in the closed window from \<open>a\<close> to \<open>b\<close> and which have
  no missing cell.
\<close>

definition occurrences ::
  "('l::linorder, 'c option, 's option) matched list \<Rightarrow> 'l \<Rightarrow> 'l \<Rightarrow> 's \<Rightarrow> nat" where
  "occurrences constituents a b x =
     length (filter (\<lambda>r. a \<le> Date r \<and> Date r \<le> b
                          \<and> Company r \<noteq> None \<and> Symbol r \<noteq> None \<and> Symbol r = Some x)
               constituents)"

text \<open>
  A table with an index of strings, in ascending order. From January to June 2014 \<open>A\<close> is
  a member in every month and \<open>B\<close> in every month but April, where its row has no company;
  \<open>A\<close> has a seventh row in July, after the window.
\<close>

definition mk_row :: "string \<Rightarrow> string \<Rightarrow> (string, string option, string option) matched" where
  "mk_row d s = \<lparr>Date = d, Company = Some s, Symbol = Some s\<rparr>"

definition six_months :: "(string, string option, string option) matched list" where
  "six_months =
     [mk_row ''2014-01-01'' ''A'', mk_row ''2014-01-01'' ''B'',
      mk_row ''2014-02-01'' ''A'', mk_row ''2014-02-01'' ''B'',
      mk_row ''2014-03-01'' ''A'', mk_row ''2014-03-01'' ''B'',
      mk_row ''2014-04-01'' ''A'',
      \<lparr>Date = ''2014-04-01'', Company = None, Symbol = Some ''B''\<rparr>,
      mk_row ''2014-05-01'' ''A'', mk_row ''2014-05-01'' ''B'',
      mk_row ''2014-06-01'' ''A'', mk_row ''2014-06-01'' ''B'',
      mk_row ''2014-07-01'' ''A'']"

subsection \<open>\<^verbatim>\<open>match_company_symbol\<close>\<close>

text \<open>
  \<^verbatim>\<open>pd.merge(left, right, on='Company')\<close> is an inner join: every pair of a left row and
  a right row with the same company gives one row. The order in which pandas lists these
  rows is not relied upon below.
\<close>

definition pd_merge :: "('d, 'c) membership list \<Rightarrow> ('c \<times> 's) list \<Rightarrow> ('d, 'c, 's) matched list" where
  "pd_merge left right =
     concat (map (\<lambda>l. map (\<lambda>r. \<lparr>Date = Date l, Company = Company l, Symbol = snd r\<rparr>)
                          (filter (\<lambda>r. fst r = Company l) right)) left)"

text \<open>
  The loop runs over \<^verbatim>\<open>range(int(len(constituents)//100))\<close>, merges the rows
  \<^verbatim>\<open>i*100:(i+1)*100\<close> with the symbol table and appends the result to the table built so
  far, which starts empty.
\<close>

definition match_company_symbol ::
  "('d, 'c) membership list \<Rightarrow> ('c \<times> 's) list \<Rightarrow> ('d, 'c, 's) matched list" where
  "match_company_symbol constituents symbols =
     fold (\<lambda>i constituents_w_symbols.
             constituents_w_symbols @ pd_merge (iloc (i * 100) ((i + 1) * 100) constituents) symbols)
          [0 ..< length constituents div 100] []"

subsection \<open>\<^verbatim>\<open>scrape_constituents_symbols\<close>\<close>

text \<open>
  \<open>search_quotes c\<close> stands for \<^verbatim>\<open>investpy.search_quotes(text=c, ...).symbol\<close>: the symbol
  of the best match, or \<open>None\<close> when the call raises. The state of the loop is the pair of
  the symbol table and the table of errors; a failed company is appended to both, with the
  empty string as its symbol.
\<close>

definition scrape_step ::
  "('c \<Rightarrow> string option) \<Rightarrow> ('d, 'c) membership \<Rightarrow>
   ('c \<times> string) list \<times> 'c list \<Rightarrow> ('c \<times> string) list \<times> 'c list" where
  "scrape_step search_quotes r st =
     (case st of (constituents_symbols, errors) \<Rightarrow>
        (case search_quotes (Company r) of
           Some s \<Rightarrow> (constituents_symbols @ [(Company r, s)], errors)
         | None \<Rightarrow> (constituents_symbols @ [(Company r, '''')], errors @ [Company r])))"

definition scrape_constituents_symbols ::
  "('c \<Rightarrow> string option) \<Rightarrow> ('d, 'c) membership list \<Rightarrow> ('c \<times> string) list \<times> 'c list" where
  "scrape_constituents_symbols search_quotes constituents =
     fold (scrape_step search_quotes) (drop_duplicates Company constituents) ([], [])"

text \<open>
  The symbol that the resolver records for a company: the one the search returns, or the
  empty string when the search fails.
\<close>

definition recorded_symbol :: "('c \<Rightarrow> string option) \<Rightarrow> 'c \<Rightarrow> string" where
  "recorded_symbol search_quotes c = (case search_quotes c of Some s \<Rightarrow> s | None \<Rightarrow> '''')"

text \<open>
  For the examples: a service that finds every company but \<open>B plc\<close>, a service that
  finds every company and returns the empty string as its symbol, a service that finds no
  company, a membership table of three companies and one of a single company on a hundred
  dates.
\<close>

definition all_but_b :: "string \<Rightarrow> string option" where
  "all_but_b text = (if text = ''B plc'' then None else Some (text @ ''.L''))"

definition empty_symbol :: "string \<Rightarrow> string option" where
  "empty_symbol text = Some ''''"

definition no_match :: "string \<Rightarrow> string option" where
  "no_match text = None"

definition abc_table :: "(nat, string) membership list" where
  "abc_table =
     [\<lparr>Date = 1, Company = ''A plc''\<rparr>, \<lparr>Date = 1, Company = ''B plc''\<rparr>,
      \<lparr>Date = 1, Company = ''C plc''\<rparr>]"

definition hundred_rows :: "(nat, string) membership list" where
  "hundred_rows = map (\<lambda>i. \<lparr>Date = i, Company = ''X plc''\<rparr>) [0 ..< 100]"

subsection \<open>\<^verbatim>\<open>scrape_daily_returns\<close>\<close>

text \<open>
  The table of returns has the key column \<^verbatim>\<open>Date\<close> and one column per symbol. It is a
  record of the list of its symbol columns and of its rows; a row is its date and a map
  from column to value, in which a missing cell (\<^verbatim>\<open>NaN\<close>) is \<open>None\<close>.
\<close>

record ('d, 'v) frame =
  columns :: "string list"
  rows :: "('d \<times> (string \<rightharpoonup> 'v)) list"

text \<open>The cells of the rows of a frame that have the date \<open>d\<close>.\<close>

definition cells_at :: "('d, 'v) frame \<Rightarrow> 'd \<Rightarrow> (string \<rightharpoonup> 'v) list" where
  "cells_at F d = map snd (filter (\<lambda>r. fst r = d) (rows F))"

text \<open>
  \<^verbatim>\<open>pd.merge(left, right, how='outer', on='Date')\<close>: the keys are the dates of both
  frames, sorted; for every key each left row with it is paired with each right row with
  it, and a side without the key contributes one row of missing cells. The symbol columns
  of the two frames are distinct in the calls below, so pandas renames none of them.
\<close>

definition or_missing :: "(string \<rightharpoonup> 'v) list \<Rightarrow> (string \<rightharpoonup> 'v) list" where
  "or_missing cs = (if cs = [] then [Map.empty] else cs)"

definition pd_merge_outer :: "('d::linorder, 'v) frame \<Rightarrow> ('d, 'v) frame \<Rightarrow> ('d, 'v) frame" where
  "pd_merge_outer left right =
     \<lparr>columns = columns left @ columns right,
      rows = concat (map (\<lambda>d. concat (map (\<lambda>l. map (\<lambda>r. (d, l ++ r))
                                                    (or_missing (cells_at right d)))
                                          (or_missing (cells_at left d))))
                         (sort (remdups (map fst (rows left) @ map fst (rows right)))))\<rparr>"

text \<open>
  One symbol's series: \<^verbatim>\<open>search_quotes\<close>, then \<^verbatim>\<open>retrieve_historical_data\<close> on what
  it found, either of which may raise (\<open>None\<close>). The feed is a list of dates with their
  \<^verbatim>\<open>Change Pct\<close>; the column is renamed to the symbol and the rows are reversed
  (\<^verbatim>\<open>.iloc[::-1]\<close>).
\<close>

definition fetch_returns ::
  "(string \<Rightarrow> 'q option) \<Rightarrow> ('q \<Rightarrow> string \<Rightarrow> string \<Rightarrow> ('d \<times> 'v) list option) \<Rightarrow>
   string \<Rightarrow> string \<Rightarrow> string \<Rightarrow> ('d, 'v) frame option" where
  "fetch_returns search_quotes retrieve_historical_data symbol start_date end_date =
     (case search_quotes symbol of
        None \<Rightarrow> None
      | Some search_result \<Rightarrow>
          (case retrieve_historical_data search_result start_date end_date of
             None \<Rightarrow> None
           | Some feed \<Rightarrow>
               Some \<lparr>columns = [symbol],
                     rows = rev (map (\<lambda>(d, v). (d, [symbol \<mapsto> v])) feed)\<rparr>))"

text \<open>
  The first symbol is fetched outside any \<^verbatim>\<open>try\<close>: an exception there leaves the
  function. The loop over the other symbols catches every exception and goes on to the
  next symbol.
\<close>

definition scrape_daily_returns ::
  "(string \<Rightarrow> 'q option) \<Rightarrow> ('q \<Rightarrow> string \<Rightarrow> string \<Rightarrow> ('d::linorder \<times> 'v) list option) \<Rightarrow>
   ('t, 'c, string) matched list \<Rightarrow> string \<Rightarrow> string \<Rightarrow> error + ('d, 'v) frame" where
  "scrape_daily_returns search_quotes retrieve_historical_data constituents start_date end_date =
     (case drop_duplicates Symbol constituents of
        [] \<Rightarrow> Inl IndexError
      | first # others \<Rightarrow>
          (case fetch_returns search_quotes retrieve_historical_data
                  (Symbol first) start_date end_date of
             None \<Rightarrow> Inl FetchError
           | Some searched_data \<Rightarrow>
               Inr (fold (\<lambda>r searched_data.
                            case fetch_returns search_quotes retrieve_historical_data
                                   (Symbol r) start_date end_date of
                              None \<Rightarrow> searched_data
                            | Some returns \<Rightarrow> pd_merge_outer searched_data returns)
                         others searched_data)))"

text \<open>
  The cells of the row of a frame with the date \<open>d\<close>; all of them are missing when the
  frame has no such row.
\<close>

definition row_at :: "('d, 'v) frame \<Rightarrow> 'd \<Rightarrow> (string \<rightharpoonup> 'v)" where
  "row_at F d = (case map_of (rows F) d of None \<Rightarrow> Map.empty | Some m \<Rightarrow> m)"

text \<open>
  A frame agrees with the feeds \<open>fd\<close> of the symbols \<open>syms\<close> when it has one row per date
  of these feeds and the cell of a symbol on a date is the value of its feed on that date.
\<close>

definition agrees :: "(string \<Rightarrow> ('d \<times> 'v) list) \<Rightarrow> string list \<Rightarrow> ('d, 'v) frame \<Rightarrow> bool" where
  "agrees fd syms T \<longleftrightarrow>
     distinct (map fst (rows T))
     \<and> set (map fst (rows T)) = (\<Union>s\<in>set syms. fst ` set (fd s))
     \<and> (\<forall>(d, m)\<in>set (rows T). \<forall>s. m s = (if s \<in> set syms then map_of (fd s) d else None))"

text \<open>
  The feed of a symbol, empty when the fetch fails, and an external service for two
  symbols: \<open>X\<close> trades on the days 3, 2, 1 and \<open>Y\<close> on the days 4, 3, 2 (the feed lists the
  latest day first); the value of a symbol on a day is ten times the day.
\<close>

definition feed_of ::
  "(string \<Rightarrow> 'q option) \<Rightarrow> ('q \<Rightarrow> string \<Rightarrow> string \<Rightarrow> ('d \<times> 'v) list option) \<Rightarrow>
   string \<Rightarrow> string \<Rightarrow> string \<Rightarrow> ('d \<times> 'v) list" where
  "feed_of search_quotes retrieve_historical_data start_date end_date symbol =
     (case search_quotes symbol of
        None \<Rightarrow> []
      | Some search_result \<Rightarrow>
          (case retrieve_historical_data search_result start_date end_date of
             None \<Rightarrow> []
           | Some feed \<Rightarrow> feed))"

definition xy_search :: "string \<Rightarrow> string option" where
  "xy_search text = (if text = ''X'' \<or> text = ''Y'' then Some text else None)"

definition xy_history :: "string \<Rightarrow> string \<Rightarrow> string \<Rightarrow> (nat \<times> int) list option" where
  "xy_history q start_date end_date =
     (if q = ''X'' then Some [(3, 30), (2, 20), (1, 10)]
      else if q = ''Y'' then Some [(4, 40), (3, 30), (2, 20)]
      else None)"

definition xy_table :: "(nat, string, string) matched list" where
  "xy_table =
     [\<lparr>Date = 1, Company = ''X plc'', Symbol = ''X''\<rparr>,
      \<lparr>Date = 1, Company = ''Y plc'', Symbol = ''Y''\<rparr>,
      \<lparr>Date = 2, Company = ''X plc'', Symbol = ''X''\<rparr>]"

section \<open>Properties\<close>

subsection \<open>The date window\<close>

lemmas strptime_eval = is_digit_def digit_val_def days_in_month_def is_leap_def

text \<open>
  Claim C4. For two date strings that parse as calendar dates, \<open>months_between_date\<close>
  returns \<open>(end.year - start.year) * 12 + (end.month - start.month) + 1\<close>; for two dates
  of the same year this is \<open>end.month - start.month + 1\<close>, and from 2014-01-31 to
  2014-12-31 it is 12. The order of the two dates plays no part.
\<close>

theorem months_between_date_formula:
  assumes "strptime start_date = Inr sd" and "strptime end_date = Inr ed"
  shows "months_between_date start_date end_date
           = Inr ((year ed - year sd) * 12 + (month ed - month sd) + 1)
         \<and> (year sd = year ed \<longrightarrow>
              months_between_date start_date end_date = Inr (month ed - month sd + 1))
         \<and> months_between_date ''2014-01-31'' ''2014-12-31'' = Inr 12"
  using assms by (simp add: months_between_date_def strptime_eval)

theorem months_between_date_formula_witness:
  "strptime ''2014-03-15'' = Inr \<lparr>year = 2014, month = 3, day = 15\<rparr>
   \<and> strptime ''2015-02-28'' = Inr \<lparr>year = 2015, month = 2, day = 28\<rparr>
   \<and> months_between_date ''2014-03-15'' ''2015-02-28'' = Inr 12
   \<and> months_between_date ''2014-03-15'' ''2014-03-15'' = Inr 1"
proof -
  have s: "strptime ''2014-03-15'' = Inr \<lparr>year = 2014, month = 3, day = 15\<rparr>"
    by (simp add: strptime_eval)
  have e: "strptime ''2015-02-28'' = Inr \<lparr>year = 2015, month = 2, day = 28\<rparr>"
    by (simp add: strptime_eval)
  from months_between_date_formula [OF s e] months_between_date_formula [OF s s] s e
  show ?thesis by simp
qed

subsection \<open>The matcher and its batches\<close>

lemma pd_merge_append: "pd_merge (a @ b) s = pd_merge a s @ pd_merge b s"
  by (simp add: pd_merge_def)

lemma pd_merge_Nil: "pd_merge [] s = []"
  by (simp add: pd_merge_def)

text \<open>After \<open>k\<close> rounds the loop has joined the first \<open>100 * k\<close> rows.\<close>

lemma match_loop_prefix:
  "100 * k \<le> length c \<Longrightarrow>
   fold (\<lambda>i acc. acc @ pd_merge (iloc (i * 100) ((i + 1) * 100) c) s) [0 ..< k] []
     = pd_merge (take (100 * k) c) s"
proof (induction k)
  case 0
  show ?case by (simp add: pd_merge_Nil)
next
  case (Suc k)
  have "take (100 * Suc k) c = take (100 * k) c @ take 100 (drop (100 * k) c)"
    by (simp add: take_add [symmetric] add.commute)
  moreover have "iloc (k * 100) ((k + 1) * 100) c = take 100 (drop (100 * k) c)"
    by (simp add: iloc_def mult.commute)
  ultimately show ?case using Suc by (simp add: pd_merge_append)
qed

lemma match_company_symbol_prefix:
  "match_company_symbol c s = pd_merge (take (100 * (length c div 100)) c) s"
  unfolding match_company_symbol_def by (rule match_loop_prefix) simp

text \<open>
  Claim C10. On a membership table with fewer than 100 rows \<open>match_company_symbol\<close>
  returns the empty table. In general its rows are those of the join of the first
  \<open>100 * (n div 100)\<close> rows with the symbol table, so that the last \<open>n mod 100\<close> rows
  contribute nothing: the result is the same when they are cut off.
\<close>

theorem match_company_symbol_complete_batches:
  "(length constituents < 100 \<longrightarrow> match_company_symbol constituents symbols = [])
   \<and> mset (match_company_symbol constituents symbols)
       = mset (pd_merge (take (100 * (length constituents div 100)) constituents) symbols)
   \<and> match_company_symbol constituents symbols
       = match_company_symbol (take (100 * (length constituents div 100)) constituents) symbols"
  by (simp add: match_company_symbol_prefix pd_merge_Nil)

theorem match_company_symbol_complete_batches_witness:
  "length [\<lparr>Date = 1 :: nat, Company = ''X plc''\<rparr>] < 100
   \<and> match_company_symbol [\<lparr>Date = 1 :: nat, Company = ''X plc''\<rparr>] [(''X plc'', ''X'')] = []"
  using match_company_symbol_complete_batches
    [of "[\<lparr>Date = 1 :: nat, Company = ''X plc''\<rparr>]" "[(''X plc'', ''X'')]"]
  by simp

text \<open>
  Claim C1 says that the matcher returns the rows of one join of the whole membership
  table with the symbol table. On a table of one row whose company has a symbol the join
  has one row and the matcher returns none: the loop runs \<open>1 div 100 = 0\<close> times.
\<close>

theorem match_company_symbol_one_row:
  "mset (match_company_symbol [\<lparr>Date = 1 :: nat, Company = ''X plc''\<rparr>] [(''X plc'', ''X'')])
     \<noteq> mset (pd_merge [\<lparr>Date = 1 :: nat, Company = ''X plc''\<rparr>] [(''X plc'', ''X'')])"
  by (simp add: match_company_symbol_def pd_merge_def)

subsection \<open>The label slice on an index in ascending order\<close>

lemma drop_below:
  "sorted (map k rs) \<Longrightarrow>
   drop (length (filter (\<lambda>r. k r < a) rs)) rs = filter (\<lambda>r. a \<le> k r) rs"
proof (induction rs)
  case Nil
  show ?case by simp
next
  case (Cons r rs)
  show ?case
  proof (cases "k r < a")
    case True
    with Cons show ?thesis by simp
  next
    case False
    with Cons.prems have all: "\<forall>x\<in>set rs. a \<le> k x" by auto
    then have "filter (\<lambda>r. k r < a) rs = []"
      by (auto simp: filter_empty_conv)
    moreover from all have "filter (\<lambda>r. a \<le> k r) rs = rs"
      by (simp add: filter_id_conv)
    ultimately show ?thesis using False by simp
  qed
qed

lemma take_upto:
  "sorted (map k rs) \<Longrightarrow>
   take (length (filter (\<lambda>r. k r \<le> b) rs)) rs = filter (\<lambda>r. k r \<le> b) rs"
proof (induction rs)
  case Nil
  show ?case by simp
next
  case (Cons r rs)
  show ?case
  proof (cases "k r \<le> b")
    case True
    with Cons show ?thesis by simp
  next
    case False
    with Cons.prems have "\<forall>x\<in>set rs. \<not> k x \<le> b" by auto
    then have "filter (\<lambda>r. k r \<le> b) rs = []"
      by (auto simp: filter_empty_conv)
    with False show ?thesis by simp
  qed
qed

lemma count_between:
  fixes k :: "'r \<Rightarrow> 'l::linorder"
  shows "length (filter (\<lambda>r. k r \<le> b) (filter (\<lambda>r. a \<le> k r) rs))
     = length (filter (\<lambda>r. k r \<le> b) rs) - length (filter (\<lambda>r. k r < a) rs)"
proof (cases "a \<le> b")
  case True
  have "length (filter (\<lambda>r. k r \<le> b) rs)
          = length (filter (\<lambda>r. k r < a) rs)
            + length (filter (\<lambda>r. k r \<le> b) (filter (\<lambda>r. a \<le> k r) rs))"
    using True by (induction rs) auto
  then show ?thesis by simp
next
  case False
  then have "filter (\<lambda>r. k r \<le> b) (filter (\<lambda>r. a \<le> k r) rs) = []"
    by (auto simp: filter_empty_conv)
  moreover have "length (filter (\<lambda>r. k r \<le> b) rs) \<le> length (filter (\<lambda>r. k r < a) rs)"
    using False by (induction rs) auto
  ultimately show ?thesis by simp
qed

text \<open>On a table in ascending order the positions found by bisection cut out the window.\<close>

lemma iloc_window:
  assumes "sorted (map k rs)"
  shows "iloc (length (filter (\<lambda>l. l < a) (map k rs))) (length (filter (\<lambda>l. l \<le> b) (map k rs))) rs
           = filter (\<lambda>r. a \<le> k r \<and> k r \<le> b) rs"
proof -
  let ?ys = "filter (\<lambda>r. a \<le> k r) rs"
  let ?s = "length (filter (\<lambda>r. k r < a) rs)"
  let ?e = "length (filter (\<lambda>r. k r \<le> b) rs)"
  have s: "length (filter (\<lambda>l. l < a) (map k rs)) = ?s"
    and e: "length (filter (\<lambda>l. l \<le> b) (map k rs)) = ?e"
    by (simp_all add: filter_map comp_def)
  from assms have "sorted (map k ?ys)" by (rule sorted_filter)
  then have "take (length (filter (\<lambda>r. k r \<le> b) ?ys)) ?ys = filter (\<lambda>r. k r \<le> b) ?ys"
    by (rule take_upto)
  moreover have "length (filter (\<lambda>r. k r \<le> b) ?ys) = ?e - ?s"
    by (rule count_between)
  moreover have "filter (\<lambda>r. k r \<le> b) ?ys = filter (\<lambda>r. a \<le> k r \<and> k r \<le> b) rs"
    by (simp add: conj_commute)
  ultimately have "take (?e - ?s) ?ys = filter (\<lambda>r. a \<le> k r \<and> k r \<le> b) rs"
    by (simp only:)
  then show ?thesis
    unfolding iloc_def s e by (simp only: drop_below [OF assms])
qed

lemma loc_sorted:
  assumes "sorted (map Date constituents)"
    and "left_bound K start_date = Inr a" and "right_bound K end_date = Inr b"
  shows "loc K start_date end_date constituents
           = Inr (filter (\<lambda>r. a \<le> Date r \<and> Date r \<le> b) constituents)"
proof -
  have "slice_indexer K start_date end_date (map Date constituents)
          = Inr (Slice (length (filter (\<lambda>l. l < a) (map Date constituents)))
                       (length (filter (\<lambda>l. l \<le> b) (map Date constituents))))"
    unfolding slice_indexer_def assms(2,3) using assms(1) by (simp only: sum.case if_True)
  then have "loc K start_date end_date constituents
               = Inr (iloc (length (filter (\<lambda>l. l < a) (map Date constituents)))
                           (length (filter (\<lambda>l. l \<le> b) (map Date constituents)))
                           constituents)"
    by (simp only: loc_def select_rows_def sum.case indexer.case)
  then show ?thesis
    by (simp only: iloc_window [OF assms(1)])
qed

lemma select_rows_subset: "set (select_rows ix rs) \<subseteq> set rs"
proof (cases ix)
  case (Slice a b)
  have "set (take (b - a) (drop a rs)) \<subseteq> set (drop a rs)" by (rule set_take_subset)
  also have "\<dots> \<subseteq> set rs" by (rule set_drop_subset)
  finally show ?thesis using Slice by (simp add: select_rows_def iloc_def)
next
  case (Positions ps)
  then show ?thesis by (auto simp: select_rows_def)
qed

lemma loc_subset: "loc K start_date end_date constituents = Inr w \<Longrightarrow> set w \<subseteq> set constituents"
  using select_rows_subset by (fastforce simp: loc_def split: sum.splits)

text \<open>The slice raises when the index cannot read one of the two strings.\<close>

lemma loc_unreadable:
  "left_bound K start_date = Inl err \<Longrightarrow> loc K start_date end_date constituents = Inl err"
  "left_bound K start_date = Inr a \<Longrightarrow> right_bound K end_date = Inl err \<Longrightarrow>
   loc K start_date end_date constituents = Inl err"
  by (simp_all add: loc_def slice_indexer_def)

subsection \<open>The constituent filter\<close>

lemma symbol_column_Nil: "symbol_column [] = []"
  by (simp add: symbol_column_def)

lemma symbol_column_Cons:
  "symbol_column (r # rs) =
     (case Symbol r of None \<Rightarrow> symbol_column rs | Some s \<Rightarrow> s # symbol_column rs)"
  by (simp add: symbol_column_def split: option.splits)

lemma symbol_column_count:
  "count_list (symbol_column rs) x = length (filter (\<lambda>r. Symbol r = Some x) rs)"
  by (induction rs) (auto simp: symbol_column_Nil symbol_column_Cons split: option.splits)

lemma symbol_column_set: "x \<in> set (symbol_column rs) \<longleftrightarrow> Some x \<in> Symbol ` set rs"
  by (induction rs) (auto simp: symbol_column_Nil symbol_column_Cons split: option.splits)

lemma value_counts_filter:
  "x \<in> set (map fst (filter (\<lambda>(s, n). int n = f) (value_counts xs)))
     \<longleftrightarrow> x \<in> set xs \<and> int (count_list xs x) = f"
  by (force simp: value_counts_def)

text \<open>
  What the filter returns, in terms of the rows that the slice selected: the symbols that
  occur in them without a missing cell, as many times as the window has months.
\<close>

lemma common_constituents_Inr:
  assumes "common_constituents K t s e = Inr syms"
  shows "\<exists>w f. loc K s e t = Inr w \<and> months_between_date s e = Inr f
           \<and> (\<forall>x. x \<in> set syms \<longleftrightarrow>
                  x \<in> set (symbol_column (dropna w))
                  \<and> int (count_list (symbol_column (dropna w)) x) = f)"
proof -
  from assms obtain w f where p: "loc K s e t = Inr w" "months_between_date s e = Inr f"
    and r: "syms = map fst (filter (\<lambda>(s, n). int n = f)
              (value_counts (symbol_column (dropna w))))"
    by (auto simp: common_constituents_def Let_def split: sum.splits)
  have "\<forall>x. x \<in> set syms \<longleftrightarrow>
          x \<in> set (symbol_column (dropna w))
          \<and> int (count_list (symbol_column (dropna w)) x) = f"
    unfolding r value_counts_filter by simp
  with p show ?thesis by blast
qed

lemma window_count:
  "count_list (symbol_column (dropna (filter (\<lambda>r. a \<le> Date r \<and> Date r \<le> b) t))) x
     = occurrences t a b x"
  unfolding symbol_column_count dropna_def occurrences_def filter_filter
  by (rule arg_cong [where f = length], rule filter_cong) auto

lemma common_constituents_raises_loc:
  "loc K s e t = Inl err \<Longrightarrow> common_constituents K t s e = Inl err"
  by (simp add: common_constituents_def)

lemma common_constituents_raises_months:
  "loc K s e t = Inr w \<Longrightarrow> months_between_date s e = Inl err \<Longrightarrow>
   common_constituents K t s e = Inl err"
  by (simp add: common_constituents_def)

text \<open>On a table in ascending order, with two strings that the index and \<open>strptime\<close> read.\<close>

lemma common_constituents_sorted:
  assumes "sorted (map Date t)"
    and "left_bound K s = Inr a" and "right_bound K e = Inr b"
    and "months_between_date s e = Inr f"
  shows "\<exists>syms. common_constituents K t s e = Inr syms
           \<and> (\<forall>x. x \<in> set syms \<longleftrightarrow> 0 < occurrences t a b x \<and> int (occurrences t a b x) = f)"
proof -
  let ?w = "filter (\<lambda>r. a \<le> Date r \<and> Date r \<le> b) t"
  have l: "loc K s e t = Inr ?w"
    by (rule loc_sorted [OF assms(1-3)])
  then obtain syms where r: "common_constituents K t s e = Inr syms"
    by (simp add: common_constituents_def assms(4) Let_def)
  from common_constituents_Inr [OF r] l assms(4)
  have c: "\<forall>x. x \<in> set syms \<longleftrightarrow>
             x \<in> set (symbol_column (dropna ?w))
             \<and> int (count_list (symbol_column (dropna ?w)) x) = f"
    by simp
  have "x \<in> set (symbol_column (dropna ?w)) \<longleftrightarrow> 0 < occurrences t a b x" for x
    using count_list_0_iff [of "symbol_column (dropna ?w)" x]
    unfolding window_count by auto
  with c have "\<forall>x. x \<in> set syms \<longleftrightarrow> 0 < occurrences t a b x \<and> int (occurrences t a b x) = f"
    by (simp add: window_count)
  with r show ?thesis by blast
qed

lemma parse_month_range: "parse_month xs = Some m \<Longrightarrow> 1 \<le> m \<and> m \<le> 12"
  by (induction xs rule: parse_month.induct)
     (auto simp: is_digit_def digit_val_def split: if_splits)

lemma strptime_month_range:
  assumes "strptime s = Inr d"
  shows "1 \<le> month d \<and> month d \<le> 12"
proof (cases s rule: strptime.cases)
  case (1 y1 y2 y3 y4 dash rest)
  with assms obtain m where "parse_month (takeWhile (\<lambda>c. c \<noteq> CHR ''-'') rest) = Some m"
      and "month d = m"
    by (auto simp: Let_def split: if_splits option.splits list.splits prod.splits)
  then show ?thesis using parse_month_range by blast
qed (use assms in auto)

text \<open>A window whose start is not after its end has at least one month.\<close>

lemma months_between_positive:
  assumes "strptime s = Inr sd" and "strptime e = Inr ed" and "date_le sd ed"
  shows "\<exists>f. months_between_date s e = Inr f \<and> 1 \<le> f"
proof -
  from strptime_month_range [OF assms(1)] strptime_month_range [OF assms(2)] assms(3)
  have "1 \<le> (year ed - year sd) * 12 + (month ed - month sd) + 1"
    unfolding date_le_def by auto
  then show ?thesis using assms by (simp add: months_between_date_def)
qed

lemma six_months_sorted: "sorted (map Date six_months)"
  by code_simp

lemma six_months_eval:
  "common_constituents object_index six_months ''2014-01-01'' ''2014-06-30'' = Inr [''A'']"
  by code_simp

lemma six_months_reversed:
  "common_constituents object_index (rev six_months) ''2014-01-01'' ''2014-06-30'' = Inr []"
  by code_simp

text \<open>
  Claim C5 says that, for every membership table, a symbol is kept exactly when its count
  in the window equals the number of months. The function does not sort the table. On
  \<open>six_months\<close> with its rows in descending order and an index of strings, the slice from
  2014-01-01 to 2014-06-30 is empty, so that \<open>A\<close>, whose count in the window is 6 as the
  window has 6 months, is not returned.
\<close>

theorem descending_table_loses_member:
  "common_constituents object_index (rev six_months) ''2014-01-01'' ''2014-06-30'' = Inr []
   \<and> months_between_date ''2014-01-01'' ''2014-06-30'' = Inr 6
   \<and> occurrences (rev six_months) ''2014-01-01'' ''2014-06-30'' ''A'' = 6"
proof -
  have m: "months_between_date ''2014-01-01'' ''2014-06-30'' = Inr 6"
    by (simp add: months_between_date_def strptime_eval)
  have c: "occurrences (rev six_months) ''2014-01-01'' ''2014-06-30'' ''A'' = 6"
    by code_simp
  show ?thesis
    by (rule conjI [OF six_months_reversed conjI [OF m c]])
qed

text \<open>
  Claim C5, amended. For a membership table whose index is in ascending order and a
  window whose two strings the index reads as the labels \<open>a\<close> and \<open>b\<close> and \<open>strptime\<close> reads
  as dates, the start not after the end, the filter returns a list of symbols, and a
  symbol is in it if and only if the number of its rows with a label from \<open>a\<close> to \<open>b\<close> and
  no missing cell is exactly the number of months that \<open>months_between_date\<close> computes. On
  the table \<open>six_months\<close>, where \<open>A\<close> has such a row in each of the six months and \<open>B\<close> in
  five of them, the filter returns \<open>A\<close> alone.
\<close>

theorem common_constituents_exact_count:
  assumes "sorted (map Date constituents)"
    and "left_bound K start_date = Inr a" and "right_bound K end_date = Inr b"
    and "strptime start_date = Inr sd" and "strptime end_date = Inr ed"
    and "date_le sd ed"
  shows "(\<exists>syms f. common_constituents K constituents start_date end_date = Inr syms
            \<and> months_between_date start_date end_date = Inr f
            \<and> (\<forall>x. x \<in> set syms \<longleftrightarrow> int (occurrences constituents a b x) = f))
         \<and> common_constituents object_index six_months ''2014-01-01'' ''2014-06-30''
             = Inr [''A'']"
proof -
  from months_between_positive [OF assms(4-6)]
  obtain f where f: "months_between_date start_date end_date = Inr f" "1 \<le> f"
    by blast
  from common_constituents_sorted [OF assms(1-3) f(1)]
  obtain syms where s: "common_constituents K constituents start_date end_date = Inr syms"
    and c: "\<forall>x. x \<in> set syms \<longleftrightarrow>
              0 < occurrences constituents a b x \<and> int (occurrences constituents a b x) = f"
    by blast
  from c f(2) have "\<forall>x. x \<in> set syms \<longleftrightarrow> int (occurrences constituents a b x) = f"
    by (simp add: conj_commute) linarith
  with s f(1)
  have "\<exists>syms f. common_constituents K constituents start_date end_date = Inr syms
            \<and> months_between_date start_date end_date = Inr f
            \<and> (\<forall>x. x \<in> set syms \<longleftrightarrow> int (occurrences constituents a b x) = f)"
    by blast
  from this six_months_eval show ?thesis by (rule conjI)
qed

theorem common_constituents_exact_count_witness:
  "sorted (map Date six_months)
   \<and> left_bound object_index ''2014-01-01'' = Inr ''2014-01-01''
   \<and> right_bound object_index ''2014-06-30'' = Inr ''2014-06-30''
   \<and> strptime ''2014-01-01'' = Inr \<lparr>year = 2014, month = 1, day = 1\<rparr>
   \<and> strptime ''2014-06-30'' = Inr \<lparr>year = 2014, month = 6, day = 30\<rparr>
   \<and> date_le \<lparr>year = 2014, month = 1, day = 1\<rparr> \<lparr>year = 2014, month = 6, day = 30\<rparr>
   \<and> months_between_date ''2014-01-01'' ''2014-06-30'' = Inr 6
   \<and> occurrences six_months ''2014-01-01'' ''2014-06-30'' ''A'' = 6
   \<and> occurrences six_months ''2014-01-01'' ''2014-06-30'' ''B'' = 5
   \<and> map_sum id (\<lambda>syms. (''A'' \<in> set syms, ''B'' \<in> set syms))
        (common_constituents object_index six_months ''2014-01-01'' ''2014-06-30'')
      = Inr (True, False)"
proof -
  have l: "left_bound object_index ''2014-01-01'' = Inr ''2014-01-01''"
    and r: "right_bound object_index ''2014-06-30'' = Inr ''2014-06-30''"
    by (simp_all add: object_index_def)
  have s: "strptime ''2014-01-01'' = Inr \<lparr>year = 2014, month = 1, day = 1\<rparr>"
    by (simp add: strptime_eval)
  have e: "strptime ''2014-06-30'' = Inr \<lparr>year = 2014, month = 6, day = 30\<rparr>"
    by (simp add: strptime_eval)
  have le: "date_le \<lparr>year = 2014, month = 1, day = 1\<rparr> \<lparr>year = 2014, month = 6, day = 30\<rparr>"
    by (simp add: date_le_def)
  have m: "months_between_date ''2014-01-01'' ''2014-06-30'' = Inr 6"
    unfolding months_between_date_def s e by simp
  have a: "occurrences six_months ''2014-01-01'' ''2014-06-30'' ''A'' = 6"
    by code_simp
  have b: "occurrences six_months ''2014-01-01'' ''2014-06-30'' ''B'' = 5"
    by code_simp
  from common_constituents_exact_count [OF six_months_sorted l r s e le, THEN conjunct1]
  obtain syms f
    where 1: "common_constituents object_index six_months ''2014-01-01'' ''2014-06-30''
                = Inr syms"
      and 2: "months_between_date ''2014-01-01'' ''2014-06-30'' = Inr f"
      and 3: "\<forall>x. x \<in> set syms \<longleftrightarrow>
                int (occurrences six_months ''2014-01-01'' ''2014-06-30'' x) = f"
    by blast
  from 2 have "f = 6" unfolding m by simp
  with 3 a b have "''A'' \<in> set syms" and "''B'' \<notin> set syms" by simp_all
  then have t: "map_sum id (\<lambda>syms. (''A'' \<in> set syms, ''B'' \<in> set syms))
                  (common_constituents object_index six_months ''2014-01-01'' ''2014-06-30'')
                = Inr (True, False)"
    unfolding 1 by simp
  show ?thesis
    by (rule conjI [OF six_months_sorted conjI [OF l conjI [OF r conjI [OF s conjI [OF e
          conjI [OF le conjI [OF m conjI [OF a conjI [OF b t]]]]]]]]])
qed

text \<open>
  Claim C6 says that the filter returns the same set on every permutation of the rows.
  With an index of strings, \<open>six_months\<close> gives \<open>A\<close> and the same rows in descending order
  give nothing.
\<close>

theorem row_order_changes_result:
  "mset (rev six_months) = mset six_months
   \<and> map_sum id set (common_constituents object_index six_months ''2014-01-01'' ''2014-06-30'')
       = Inr {''A''}
   \<and> map_sum id set
        (common_constituents object_index (rev six_months) ''2014-01-01'' ''2014-06-30'')
       = Inr {}"
  by (simp add: six_months_eval six_months_reversed)

text \<open>
  Claim C6, amended. Two membership tables with the same rows, both with the index in
  ascending order (they differ in the order of the rows of a same date), give the same
  outcome: the same error, or the same set of symbols.
\<close>

theorem common_constituents_row_order:
  fixes constituents constituents' :: "('l::linorder, 'c option, 's option) matched list"
  assumes "mset constituents = mset constituents'"
    and "sorted (map Date constituents)" and "sorted (map Date constituents')"
  shows "map_sum id set (common_constituents K constituents start_date end_date)
           = map_sum id set (common_constituents K constituents' start_date end_date)"
proof -
  have occ: "occurrences constituents a b x = occurrences constituents' a b x"
    for a b and x :: 's
  proof -
    have "occurrences t a b x
            = size (filter_mset (\<lambda>r. a \<le> Date r \<and> Date r \<le> b
                                   \<and> Company r \<noteq> None \<and> Symbol r \<noteq> None \<and> Symbol r = Some x)
                (mset t))"
      for t :: "('l, 'c option, 's option) matched list"
      unfolding occurrences_def by (simp only: mset_filter [symmetric] size_mset)
    then show ?thesis using assms(1) by simp
  qed
  show ?thesis
  proof (cases "left_bound K start_date")
    case (Inl err)
    from common_constituents_raises_loc [OF loc_unreadable(1) [OF Inl]]
    have "common_constituents K constituents start_date end_date = Inl err"
      and "common_constituents K constituents' start_date end_date = Inl err"
      by this+
    then show ?thesis by (simp only:)
  next
    case a: (Inr a)
    show ?thesis
    proof (cases "right_bound K end_date")
      case (Inl err)
      from common_constituents_raises_loc [OF loc_unreadable(2) [OF a Inl]]
      have "common_constituents K constituents start_date end_date = Inl err"
        and "common_constituents K constituents' start_date end_date = Inl err"
        by this+
      then show ?thesis by (simp only:)
    next
      case b: (Inr b)
      show ?thesis
      proof (cases "months_between_date start_date end_date")
        case (Inl err)
        from common_constituents_raises_months [OF loc_sorted [OF assms(2) a b] Inl]
          common_constituents_raises_months [OF loc_sorted [OF assms(3) a b] Inl]
        show ?thesis by (simp only:)
      next
        case f: (Inr f)
        from common_constituents_sorted [OF assms(2) a b f]
        obtain syms where 1: "common_constituents K constituents start_date end_date = Inr syms"
          and 2: "\<forall>x. x \<in> set syms \<longleftrightarrow>
                    0 < occurrences constituents a b x
                    \<and> int (occurrences constituents a b x) = f"
          by blast
        from common_constituents_sorted [OF assms(3) a b f]
        obtain syms' where 3: "common_constituents K constituents' start_date end_date = Inr syms'"
          and 4: "\<forall>x. x \<in> set syms' \<longleftrightarrow>
                    0 < occurrences constituents' a b x
                    \<and> int (occurrences constituents' a b x) = f"
          by blast
        have "x \<in> set syms \<longleftrightarrow> x \<in> set syms'" for x
          using 2 4 by (simp add: occ)
        then have "set syms = set syms'" by (rule set_eqI)
        then show ?thesis unfolding 1 3 by simp
      qed
    qed
  qed
qed

theorem common_constituents_row_order_witness:
  "mset six_months
     = mset (mk_row ''2014-01-01'' ''B'' # mk_row ''2014-01-01'' ''A'' # drop 2 six_months)
   \<and> sorted (map Date six_months)
   \<and> sorted (map Date
        (mk_row ''2014-01-01'' ''B'' # mk_row ''2014-01-01'' ''A'' # drop 2 six_months))
   \<and> map_sum id set
        (common_constituents object_index
           (mk_row ''2014-01-01'' ''B'' # mk_row ''2014-01-01'' ''A'' # drop 2 six_months)
           ''2014-01-01'' ''2014-06-30'')
       = Inr {''A''}"
proof -
  let ?t = "mk_row ''2014-01-01'' ''B'' # mk_row ''2014-01-01'' ''A'' # drop 2 six_months"
  have "six_months = mk_row ''2014-01-01'' ''A'' # mk_row ''2014-01-01'' ''B'' # drop 2 six_months"
    by (simp add: six_months_def)
  then have "mset six_months
               = mset (mk_row ''2014-01-01'' ''A'' # mk_row ''2014-01-01'' ''B'' # drop 2 six_months)"
    by (rule arg_cong)
  then have p: "mset six_months = mset ?t"
    by (simp only: mset.simps add_mset_commute)
  have q: "sorted (map Date ?t)"
    by code_simp
  from common_constituents_row_order
         [OF p six_months_sorted q, of object_index "''2014-01-01''" "''2014-06-30''"]
  have r: "map_sum id set (common_constituents object_index ?t ''2014-01-01'' ''2014-06-30'')
             = Inr {''A''}"
    by (simp add: six_months_eval)
  show ?thesis
    by (rule conjI [OF p conjI [OF six_months_sorted conjI [OF q r]]])
qed

text \<open>
  Claim C9. Every symbol that the filter returns is the symbol of a row of the table it
  was given.
\<close>

theorem common_constituents_from_input:
  assumes "common_constituents K constituents start_date end_date = Inr syms"
    and "x \<in> set syms"
  shows "Some x \<in> Symbol ` set constituents"
proof -
  from common_constituents_Inr [OF assms(1)] assms(2)
  obtain w where w: "loc K start_date end_date constituents = Inr w"
    and "x \<in> set (symbol_column (dropna w))"
    by blast
  then have "Some x \<in> Symbol ` set (dropna w)"
    by (simp add: symbol_column_set)
  then obtain r where "r \<in> set w" and "Symbol r = Some x"
    by (auto simp: dropna_def)
  with loc_subset [OF w] show ?thesis by force
qed

theorem common_constituents_from_input_witness:
  "common_constituents object_index six_months ''2014-01-01'' ''2014-06-30'' = Inr [''A'']
   \<and> ''A'' \<in> set [''A'']
   \<and> Some ''A'' \<in> Symbol ` set six_months"
proof -
  have r: "common_constituents object_index six_months ''2014-01-01'' ''2014-06-30''
             = Inr [''A'']"
    by (rule six_months_eval)
  have m: "''A'' \<in> set [''A'']" by simp
  from common_constituents_from_input [OF r m] r m show ?thesis by simp
qed

subsection \<open>The symbol resolver\<close>

lemma drop_duplicates_distinct:
  "distinct (map key xs) \<Longrightarrow> drop_duplicates key xs = xs"
proof (induction xs)
  case Nil
  show ?case by simp
next
  case (Cons x xs)
  from Cons.prems have "key x \<notin> key ` set xs"
    by simp
  then have "\<forall>y\<in>set xs. key y \<noteq> key x"
    by (metis imageI)
  then have "filter (\<lambda>y. key y \<noteq> key x) xs = xs"
    by (simp add: filter_id_conv)
  with Cons show ?case by simp
qed

lemma drop_duplicates_subset: "set (drop_duplicates key xs) \<subseteq> set xs"
  by (induction key xs rule: drop_duplicates.induct) auto

lemma drop_duplicates_keys: "key ` set (drop_duplicates key xs) = key ` set xs"
proof (induction key xs rule: drop_duplicates.induct)
  case (1 key)
  show ?case by simp
next
  case (2 key x xs)
  have "key ` set (x # xs) = insert (key x) (key ` set (filter (\<lambda>y. key y \<noteq> key x) xs))"
    by auto
  with 2 show ?case by simp
qed

text \<open>The loop appends one row per company, and a failed company to the errors.\<close>

lemma scrape_fold:
  "fold (scrape_step search) rs (m, e) =
     (m @ map (\<lambda>r. (Company r, recorded_symbol search (Company r))) rs,
      e @ map Company (filter (\<lambda>r. search (Company r) = None) rs))"
  by (induction rs arbitrary: m e)
     (auto simp: scrape_step_def recorded_symbol_def split: option.splits)

lemma scrape_constituents_symbols_eq:
  "scrape_constituents_symbols search cs =
     (map (\<lambda>r. (Company r, recorded_symbol search (Company r))) (drop_duplicates Company cs),
      map Company (filter (\<lambda>r. search (Company r) = None) (drop_duplicates Company cs)))"
  by (simp add: scrape_constituents_symbols_def scrape_fold)

lemma nths_below: "nths xs S = nths xs {i. i < length xs \<and> i \<in> S}"
  unfolding nths_def
  by (rule arg_cong [where f = "map fst"], rule filter_cong) (auto dest: set_zip_rightD)

text \<open>
  Claim C7 says that a row has an empty symbol if and only if the lookup failed at its
  position. The resolver records the symbol that the search returns, as it is: with a
  service that finds every company and returns the empty string as its symbol, no lookup
  fails and the list of errors is empty, and every row has an empty symbol.
\<close>

theorem empty_symbol_without_failure:
  "empty_symbol ''A plc'' = Some []
   \<and> empty_symbol ''B plc'' = Some []
   \<and> empty_symbol ''C plc'' = Some []
   \<and> scrape_constituents_symbols empty_symbol abc_table
       = ([(''A plc'', []), (''B plc'', []), (''C plc'', [])], [])"
  by (simp add: scrape_constituents_symbols_eq abc_table_def empty_symbol_def
        recorded_symbol_def)

text \<open>
  Claim C7, amended. For a table of \<open>N\<close> distinct companies on which the search fails
  exactly at the positions in \<open>S\<close>, the resolver returns \<open>N\<close> rows, one per company in the
  order of the input; the row at a position in \<open>S\<close> has the empty symbol and the row at
  any other position has the symbol that the search returned, so that, when the search
  never returns the empty string, a row has the empty symbol if and only if its position
  is in \<open>S\<close>; the errors are the companies at the positions in \<open>S\<close>, in the order of the
  input.
\<close>

theorem scrape_constituents_symbols_rows:
  assumes "distinct (map Company constituents)"
    and "\<forall>i<length constituents. search (Company (constituents ! i)) = None \<longleftrightarrow> i \<in> S"
  shows "case scrape_constituents_symbols search constituents of
           (symbols, errors) \<Rightarrow>
             length symbols = length constituents
             \<and> map fst symbols = map Company constituents
             \<and> (\<forall>i<length constituents.
                  (i \<in> S \<longrightarrow> snd (symbols ! i) = [])
                  \<and> (i \<notin> S \<longrightarrow> search (Company (constituents ! i)) = Some (snd (symbols ! i))))
             \<and> ((\<forall>c s. search c = Some s \<longrightarrow> s \<noteq> []) \<longrightarrow>
                  (\<forall>i<length constituents. snd (symbols ! i) = [] \<longleftrightarrow> i \<in> S))
             \<and> errors = nths (map Company constituents) S"
proof -
  let ?m = "map (\<lambda>r. (Company r, recorded_symbol search (Company r))) constituents"
  let ?e = "map Company (filter (\<lambda>r. search (Company r) = None) constituents)"
  have eq: "scrape_constituents_symbols search constituents = (?m, ?e)"
    by (simp add: scrape_constituents_symbols_eq drop_duplicates_distinct [OF assms(1)])
  have fst: "map fst ?m = map Company constituents"
    by (simp add: comp_def)
  have rows: "\<forall>i<length constituents.
                (i \<in> S \<longrightarrow> snd (?m ! i) = [])
                \<and> (i \<notin> S \<longrightarrow> search (Company (constituents ! i)) = Some (snd (?m ! i)))"
    using assms(2) by (auto simp: recorded_symbol_def split: option.splits)
  have iff: "(\<forall>c s. search c = Some s \<longrightarrow> s \<noteq> []) \<longrightarrow>
               (\<forall>i<length constituents. snd (?m ! i) = [] \<longleftrightarrow> i \<in> S)"
  proof
    assume n: "\<forall>c s. search c = Some s \<longrightarrow> s \<noteq> []"
    have "recorded_symbol search c = [] \<longleftrightarrow> search c = None" for c
      using n by (auto simp: recorded_symbol_def split: option.splits)
    with assms(2) show "\<forall>i<length constituents. snd (?m ! i) = [] \<longleftrightarrow> i \<in> S"
      by simp
  qed
  have "{i. i < length constituents \<and> search (Company (constituents ! i)) = None}
          = {i. i < length (map Company constituents) \<and> i \<in> S}"
    using assms(2) by auto
  then have "?e = nths (map Company constituents)
                     {i. i < length (map Company constituents) \<and> i \<in> S}"
    by (simp add: filter_eq_nths nths_map)
  then have errs: "?e = nths (map Company constituents) S"
    by (simp only: nths_below [symmetric])
  have len: "length ?m = length constituents"
    by simp
  from len fst rows iff errs show ?thesis
    unfolding eq by (simp only: prod.case)
qed

theorem scrape_constituents_symbols_rows_witness:
  "distinct (map Company abc_table)
   \<and> all_but_b ''A plc'' = Some ''A plc.L''
   \<and> all_but_b ''B plc'' = None
   \<and> all_but_b ''C plc'' = Some ''C plc.L''
   \<and> scrape_constituents_symbols all_but_b abc_table
       = ([(''A plc'', ''A plc.L''), (''B plc'', []), (''C plc'', ''C plc.L'')], [''B plc''])
   \<and> nths (map Company abc_table) {1} = [''B plc'']"
proof -
  have d: "distinct (map Company abc_table)"
    by (simp add: abc_table_def)
  have f: "\<forall>i<length abc_table. all_but_b (Company (abc_table ! i)) = None \<longleftrightarrow> i \<in> {1}"
    by (simp add: abc_table_def all_but_b_def less_Suc_eq numeral_3_eq_3)
  have a: "all_but_b ''A plc'' = Some ''A plc.L''"
    and b: "all_but_b ''B plc'' = None"
    and c: "all_but_b ''C plc'' = Some ''C plc.L''"
    by (simp_all add: all_but_b_def)
  have r: "scrape_constituents_symbols all_but_b abc_table
             = ([(''A plc'', ''A plc.L''), (''B plc'', []), (''C plc'', ''C plc.L'')], [''B plc''])"
    by (simp add: scrape_constituents_symbols_eq abc_table_def all_but_b_def
          recorded_symbol_def)
  from scrape_constituents_symbols_rows [OF d f]
  have t: "nths (map Company abc_table) {1} = [''B plc'']"
    unfolding r by simp
  show ?thesis
    by (rule conjI [OF d conjI [OF a conjI [OF b conjI [OF c conjI [OF r t]]]]])
qed

subsection \<open>What the matcher does with unresolved companies\<close>

lemma set_pd_merge:
  "set (pd_merge left right) =
     {\<lparr>Date = Date l, Company = Company l, Symbol = snd p\<rparr> | l p.
        l \<in> set left \<and> p \<in> set right \<and> fst p = Company l}"
  by (force simp: pd_merge_def)

lemma set_resolved_symbols:
  "set (fst (scrape_constituents_symbols search resolved)) =
     {(c, recorded_symbol search c) | c. c \<in> Company ` set resolved}"
proof -
  have "set (fst (scrape_constituents_symbols search resolved))
          = (\<lambda>c. (c, recorded_symbol search c)) ` Company ` set (drop_duplicates Company resolved)"
    by (simp add: scrape_constituents_symbols_eq image_image)
  also have "\<dots> = (\<lambda>c. (c, recorded_symbol search c)) ` Company ` set resolved"
    by (simp only: drop_duplicates_keys)
  finally show ?thesis by auto
qed

lemma set_match_resolved:
  "set (pd_merge left (fst (scrape_constituents_symbols search resolved))) =
     {\<lparr>Date = Date l, Company = Company l, Symbol = recorded_symbol search (Company l)\<rparr> | l.
        l \<in> set left \<and> Company l \<in> Company ` set resolved}"
  unfolding set_pd_merge set_resolved_symbols by auto

lemma hundred_rows_length: "length hundred_rows = 100"
  by (simp add: hundred_rows_def)

lemma hundred_rows_resolved: "Company ` set hundred_rows = {''X plc''}"
  by (simp add: hundred_rows_def image_image image_constant_conv)

text \<open>
  Claim C3 says that the join drops every membership row whose company failed to
  resolve. The resolver records such a company with the empty symbol, and the join is on
  the company alone: on the table \<open>hundred_rows\<close>, whose only company is not found, the
  company is in the list of errors and each of its rows is in the output of the matcher,
  with the empty symbol.
\<close>

theorem unresolved_row_in_output:
  "snd (scrape_constituents_symbols no_match hundred_rows) = [''X plc'']
   \<and> \<lparr>Date = 0, Company = ''X plc'', Symbol = []\<rparr>
       \<in> set (match_company_symbol hundred_rows
                (fst (scrape_constituents_symbols no_match hundred_rows)))"
proof -
  have "drop_duplicates Company hundred_rows = [\<lparr>Date = 0, Company = ''X plc''\<rparr>]"
    by (simp add: hundred_rows_def upt_conv_Cons [of 0 100])
  then have e: "snd (scrape_constituents_symbols no_match hundred_rows) = [''X plc'']"
    by (simp add: scrape_constituents_symbols_eq no_match_def)
  have "\<lparr>Date = 0, Company = ''X plc''\<rparr> \<in> set hundred_rows"
    by (simp add: hundred_rows_def upt_conv_Cons [of 0 100])
  then have "\<lparr>Date = 0, Company = ''X plc'', Symbol = recorded_symbol no_match ''X plc''\<rparr>
          \<in> set (pd_merge hundred_rows (fst (scrape_constituents_symbols no_match hundred_rows)))"
    unfolding set_match_resolved hundred_rows_resolved by force
  then have "\<lparr>Date = 0, Company = ''X plc'', Symbol = []\<rparr>
          \<in> set (match_company_symbol hundred_rows
                (fst (scrape_constituents_symbols no_match hundred_rows)))"
    by (simp add: match_company_symbol_prefix hundred_rows_length recorded_symbol_def
          no_match_def)
  with e show ?thesis by (rule conjI)
qed

text \<open>
  Claim C3, amended. On a membership table made of complete batches of 100 rows and the
  symbol table that the resolver builds from a table \<open>resolved\<close>, the output of the
  matcher consists of the membership rows whose company is in \<open>resolved\<close>, each with the
  symbol recorded for its company. A row whose company failed to resolve is not dropped:
  it is in the output with the empty symbol.
\<close>

theorem match_company_symbol_resolved:
  assumes "length constituents mod 100 = 0"
  shows "set (match_company_symbol constituents
                (fst (scrape_constituents_symbols search resolved)))
           = {\<lparr>Date = Date l, Company = Company l,
                Symbol = recorded_symbol search (Company l)\<rparr> | l.
                l \<in> set constituents \<and> Company l \<in> Company ` set resolved}
         \<and> (\<forall>l\<in>set constituents.
               Company l \<in> Company ` set resolved \<and> search (Company l) = None \<longrightarrow>
               \<lparr>Date = Date l, Company = Company l, Symbol = []\<rparr>
                 \<in> set (match_company_symbol constituents
                          (fst (scrape_constituents_symbols search resolved))))"
proof -
  from assms mult_div_mod_eq [of 100 "length constituents"]
  have "100 * (length constituents div 100) = length constituents"
    by simp
  then have m: "match_company_symbol constituents s = pd_merge constituents s"
    for s :: "('b \<times> string) list"
    by (simp add: match_company_symbol_prefix)
  have a: "set (match_company_symbol constituents
                (fst (scrape_constituents_symbols search resolved)))
           = {\<lparr>Date = Date l, Company = Company l,
                Symbol = recorded_symbol search (Company l)\<rparr> | l.
                l \<in> set constituents \<and> Company l \<in> Company ` set resolved}"
    unfolding m by (rule set_match_resolved)
  have b: "\<forall>l\<in>set constituents.
               Company l \<in> Company ` set resolved \<and> search (Company l) = None \<longrightarrow>
               \<lparr>Date = Date l, Company = Company l, Symbol = []\<rparr>
                 \<in> set (match_company_symbol constituents
                          (fst (scrape_constituents_symbols search resolved)))"
  proof (intro ballI impI)
    fix l
    assume l: "l \<in> set constituents"
      and c: "Company l \<in> Company ` set resolved \<and> search (Company l) = None"
    then have "recorded_symbol search (Company l) = []"
      by (simp add: recorded_symbol_def)
    with l c
    have "\<exists>l'. \<lparr>Date = Date l, Company = Company l, Symbol = []\<rparr>
                 = \<lparr>Date = Date l', Company = Company l',
                     Symbol = recorded_symbol search (Company l')\<rparr>
               \<and> l' \<in> set constituents \<and> Company l' \<in> Company ` set resolved"
      by (intro exI [of _ l]) simp
    then show "\<lparr>Date = Date l, Company = Company l, Symbol = []\<rparr>
                 \<in> set (match_company_symbol constituents
                          (fst (scrape_constituents_symbols search resolved)))"
      unfolding a by simp
  qed
  from a b show ?thesis by (rule conjI)
qed

theorem match_company_symbol_resolved_witness:
  "length hundred_rows mod 100 = 0
   \<and> \<lparr>Date = 99, Company = ''X plc''\<rparr> \<in> set hundred_rows
   \<and> no_match ''X plc'' = None
   \<and> \<lparr>Date = 99, Company = ''X plc'', Symbol = []\<rparr>
       \<in> set (match_company_symbol hundred_rows
                (fst (scrape_constituents_symbols no_match hundred_rows)))"
proof -
  have h: "length hundred_rows mod 100 = 0"
    by (simp add: hundred_rows_length)
  have r: "\<lparr>Date = 99, Company = ''X plc''\<rparr> \<in> set hundred_rows"
    by (simp add: hundred_rows_def)
  have n: "no_match ''X plc'' = None"
    by (simp add: no_match_def)
  have c: "Company \<lparr>Date = 99, Company = ''X plc''\<rparr> \<in> Company ` set hundred_rows
           \<and> no_match (Company \<lparr>Date = 99, Company = ''X plc''\<rparr>) = None"
    using n by (simp add: hundred_rows_resolved)
  from match_company_symbol_resolved [OF h, of no_match hundred_rows,
         THEN conjunct2, rule_format, OF r c]
  have t: "\<lparr>Date = 99, Company = ''X plc'', Symbol = []\<rparr>
          \<in> set (match_company_symbol hundred_rows
                   (fst (scrape_constituents_symbols no_match hundred_rows)))"
    by simp
  show ?thesis
    by (rule conjI [OF h conjI [OF r conjI [OF n t]]])
qed


subsection \<open>The table of returns\<close>

lemma cells_of_distinct:
  "distinct (map fst xs) \<Longrightarrow>
   map snd (filter (\<lambda>r. fst r = d) xs) = (case map_of xs d of None \<Rightarrow> [] | Some m \<Rightarrow> [m])"
proof (induction xs)
  case Nil
  show ?case by simp
next
  case (Cons x xs)
  show ?case
  proof (cases "fst x = d")
    case True
    with Cons.prems have "d \<notin> fst ` set xs" by auto
    then have "filter (\<lambda>r. fst r = d) xs = []"
      by (auto simp: filter_empty_conv)
    with True show ?thesis by (cases x) simp
  next
    case False
    with Cons show ?thesis by (cases x) simp
  qed
qed

lemma or_missing_cells_at:
  "distinct (map fst (rows F)) \<Longrightarrow> or_missing (cells_at F d) = [row_at F d]"
  by (simp add: or_missing_def cells_at_def row_at_def cells_of_distinct split: option.splits)

text \<open>With one row per date on both sides, the outer join has one row per date.\<close>

lemma pd_merge_outer_rows:
  assumes "distinct (map fst (rows L))" and "distinct (map fst (rows R))"
  shows "rows (pd_merge_outer L R) =
           map (\<lambda>d. (d, row_at L d ++ row_at R d))
               (sort (remdups (map fst (rows L) @ map fst (rows R))))"
  by (simp add: pd_merge_outer_def or_missing_cells_at [OF assms(1)]
        or_missing_cells_at [OF assms(2)])

lemma agrees_row_at:
  assumes "agrees fd syms T"
  shows "row_at T d s = (if s \<in> set syms then map_of (fd s) d else None)"
proof (cases "map_of (rows T) d")
  case None
  then have "d \<notin> set (map fst (rows T))"
    by (simp add: map_of_eq_None_iff)
  with assms have "\<forall>s\<in>set syms. d \<notin> fst ` set (fd s)"
    by (simp add: agrees_def)
  then have "\<forall>s\<in>set syms. map_of (fd s) d = None"
    by (simp add: map_of_eq_None_iff)
  with None show ?thesis by (simp add: row_at_def)
next
  case (Some m)
  then have "(d, m) \<in> set (rows T)" by (rule map_of_SomeD)
  with assms have "m s = (if s \<in> set syms then map_of (fd s) d else None)"
    unfolding agrees_def by blast
  with Some show ?thesis by (simp add: row_at_def)
qed

lemma agrees_merge:
  assumes L: "agrees fd A L" and R: "agrees fd B R"
  shows "agrees fd (A @ B) (pd_merge_outer L R)"
proof -
  from L R have dl: "distinct (map fst (rows L))" and dr: "distinct (map fst (rows R))"
    by (simp_all add: agrees_def)
  let ?keys = "sort (remdups (map fst (rows L) @ map fst (rows R)))"
  have rows: "rows (pd_merge_outer L R) = map (\<lambda>d. (d, row_at L d ++ row_at R d)) ?keys"
    by (rule pd_merge_outer_rows [OF dl dr])
  have dates: "map fst (rows (pd_merge_outer L R)) = ?keys"
    by (simp add: rows comp_def)
  have 1: "distinct (map fst (rows (pd_merge_outer L R)))"
    unfolding dates by simp
  have 2: "set (map fst (rows (pd_merge_outer L R))) = (\<Union>s\<in>set (A @ B). fst ` set (fd s))"
    unfolding dates using L R by (simp add: agrees_def Un_commute UN_Un)
  have 3: "(row_at L d ++ row_at R d) s = (if s \<in> set (A @ B) then map_of (fd s) d else None)"
    for d s
    by (simp add: map_add_def agrees_row_at [OF L] agrees_row_at [OF R] split: option.splits)
  have "\<forall>(d, m)\<in>set (rows (pd_merge_outer L R)).
          \<forall>s. m s = (if s \<in> set (A @ B) then map_of (fd s) d else None)"
    unfolding rows using 3 by auto
  with 1 2 show ?thesis unfolding agrees_def by blast
qed

lemma agrees_seed:
  assumes "distinct (map fst feed)" and "fd symb = feed"
  shows "agrees fd [symb]
           \<lparr>columns = [symb], rows = rev (map (\<lambda>(d, v). (d, [symb \<mapsto> v])) feed)\<rparr>"
proof -
  let ?rs = "rev (map (\<lambda>(d, v). (d, [symb \<mapsto> v])) feed)"
  have "map fst (map (\<lambda>(d, v). (d, [symb \<mapsto> v])) feed) = map fst feed"
    by (simp add: comp_def case_prod_beta)
  then have f: "map fst ?rs = rev (map fst feed)"
    by (simp only: rev_map [symmetric])
  have 1: "distinct (map fst ?rs)"
    unfolding f using assms(1) by simp
  have 2: "set (map fst ?rs) = (\<Union>s\<in>set [symb]. fst ` set (fd s))"
    unfolding f using assms(2) by simp
  have "m s = (if s \<in> set [symb] then map_of (fd s) d else None)"
    if "(d, m) \<in> set ?rs" for d m s
  proof -
    from that obtain v where v: "(d, v) \<in> set feed" and m: "m = [symb \<mapsto> v]" by auto
    from v assms(1) have "map_of feed d = Some v" by simp
    with m assms(2) show ?thesis by simp
  qed
  then have 3: "\<forall>(d, m)\<in>set ?rs. \<forall>s. m s = (if s \<in> set [symb] then map_of (fd s) d else None)"
    by blast
  from 1 2 3 show ?thesis
    unfolding agrees_def by simp
qed

lemma agrees_failed:
  assumes "agrees fd A T" and "fd symb = []"
  shows "agrees fd (A @ [symb]) T"
  using assms unfolding agrees_def by auto

lemma fetch_returns_feed:
  "fetch_returns search retrieve symb s e =
     (if fetch_returns search retrieve symb s e = None then None
      else Some \<lparr>columns = [symb],
                 rows = rev (map (\<lambda>(d, v). (d, [symb \<mapsto> v])) (feed_of search retrieve s e symb))\<rparr>)"
  by (simp add: fetch_returns_def feed_of_def split: option.splits)

lemma fetch_returns_failed:
  "fetch_returns search retrieve symb s e = None \<Longrightarrow> feed_of search retrieve s e symb = []"
  by (simp add: fetch_returns_def feed_of_def split: option.splits)

text \<open>
  The loop keeps the frame in agreement with the feeds of the symbols it has gone through:
  a symbol whose fetch fails has the empty feed and changes nothing.
\<close>

lemma loop_agrees:
  assumes "agrees (feed_of search retrieve s e) A T"
    and "\<forall>r\<in>set rs. distinct (map fst (feed_of search retrieve s e (Symbol r)))"
  shows "agrees (feed_of search retrieve s e) (A @ map Symbol rs)
           (fold (\<lambda>r searched_data.
                    case fetch_returns search retrieve (Symbol r) s e of
                      None \<Rightarrow> searched_data
                    | Some returns \<Rightarrow> pd_merge_outer searched_data returns) rs T)"
  using assms
proof (induction rs arbitrary: A T)
  case Nil
  then show ?case by simp
next
  case (Cons r rs)
  let ?fd = "feed_of search retrieve s e"
  let ?step = "\<lambda>r searched_data.
                 case fetch_returns search retrieve (Symbol r) s e of
                   None \<Rightarrow> searched_data
                 | Some returns \<Rightarrow> pd_merge_outer searched_data returns"
  have "agrees ?fd (A @ [Symbol r]) (?step r T)"
  proof (cases "fetch_returns search retrieve (Symbol r) s e")
    case None
    from agrees_failed [OF Cons.prems(1) fetch_returns_failed [OF None]] None
    show ?thesis by simp
  next
    case (Some R)
    with fetch_returns_feed [of search retrieve "Symbol r" s e]
    have R: "R = \<lparr>columns = [Symbol r],
                   rows = rev (map (\<lambda>(d, v). (d, [Symbol r \<mapsto> v])) (?fd (Symbol r)))\<rparr>"
      by simp
    from Cons.prems(2) have "distinct (map fst (?fd (Symbol r)))" by simp
    then have "agrees ?fd [Symbol r] R"
      unfolding R by (rule agrees_seed) simp
    from agrees_merge [OF Cons.prems(1) this] Some show ?thesis by simp
  qed
  moreover from Cons.prems(2)
  have "\<forall>r\<in>set rs. distinct (map fst (?fd (Symbol r)))" by simp
  ultimately have "agrees ?fd ((A @ [Symbol r]) @ map Symbol rs) (fold ?step rs (?step r T))"
    by (rule Cons.IH)
  then show ?case by simp
qed


lemma drop_duplicates_nonempty: "xs \<noteq> [] \<Longrightarrow> drop_duplicates key xs \<noteq> []"
  by (cases xs) simp_all

text \<open>
  When the first fetch succeeds the function returns a frame, whatever the other fetches
  do, and the frame agrees with the feeds of all the symbols of the table.
\<close>

lemma scrape_daily_returns_agrees:
  assumes "drop_duplicates Symbol constituents = first # others"
    and "fetch_returns search retrieve (Symbol first) s e \<noteq> None"
    and "\<forall>r\<in>set constituents. distinct (map fst (feed_of search retrieve s e (Symbol r)))"
  shows "\<exists>T. scrape_daily_returns search retrieve constituents s e = Inr T
           \<and> agrees (feed_of search retrieve s e) (map Symbol (first # others)) T"
proof -
  let ?fd = "feed_of search retrieve s e"
  from drop_duplicates_subset [of Symbol constituents] assms(1)
  have sub: "set (first # others) \<subseteq> set constituents" by simp
  from assms(2) fetch_returns_feed [of search retrieve "Symbol first" s e]
  have F: "fetch_returns search retrieve (Symbol first) s e =
             Some \<lparr>columns = [Symbol first],
                   rows = rev (map (\<lambda>(d, v). (d, [Symbol first \<mapsto> v])) (?fd (Symbol first)))\<rparr>"
    by metis
  from sub assms(3) have "distinct (map fst (?fd (Symbol first)))" by simp
  then have seed: "agrees ?fd [Symbol first]
                     \<lparr>columns = [Symbol first],
                      rows = rev (map (\<lambda>(d, v). (d, [Symbol first \<mapsto> v])) (?fd (Symbol first)))\<rparr>"
    by (rule agrees_seed) simp
  from sub assms(3) have "\<forall>r\<in>set others. distinct (map fst (?fd (Symbol r)))" by auto
  from loop_agrees [OF seed this] show ?thesis
    by (simp add: scrape_daily_returns_def assms(1) F)
qed

lemma xy_table_eval:
  "map_sum id (\<lambda>T. map (\<lambda>(d, m). (d, m ''X'', m ''Y'')) (rows T))
     (scrape_daily_returns xy_search xy_history xy_table ''2014-01-01'' ''2014-12-31'')
   = Inr [(1, Some 10, None), (2, Some 20, Some 20), (3, Some 30, Some 30), (4, None, Some 40)]"
  by code_simp

text \<open>
  Claim C8. When the table has a row and the fetch of each of its symbols succeeds with a
  feed of distinct dates, the function returns a frame whose dates are those of all the
  feeds, with one row per date, and the cell of a symbol on a date is the value of its
  feed on that date: present on the dates of the symbol, missing on the dates that only
  other symbols have. With \<open>X\<close> on the days 1, 2, 3 and \<open>Y\<close> on the days 2, 3, 4 the frame
  has the days 1, 2, 3, 4, where \<open>X\<close> is missing on day 4 and \<open>Y\<close> on day 1.
\<close>

theorem scrape_daily_returns_union:
  assumes "constituents \<noteq> []"
    and "\<forall>r\<in>set constituents. \<exists>q feed.
           search (Symbol r) = Some q \<and> retrieve q s e = Some feed \<and> distinct (map fst feed)"
  shows "(\<exists>T. scrape_daily_returns search retrieve constituents s e = Inr T
            \<and> set (map fst (rows T))
                = (\<Union>r\<in>set constituents. fst ` set (feed_of search retrieve s e (Symbol r)))
            \<and> distinct (map fst (rows T))
            \<and> (\<forall>(d, m)\<in>set (rows T). \<forall>r\<in>set constituents.
                  m (Symbol r) = map_of (feed_of search retrieve s e (Symbol r)) d))
         \<and> map_sum id (\<lambda>T. map (\<lambda>(d, m). (d, m ''X'', m ''Y'')) (rows T))
             (scrape_daily_returns xy_search xy_history xy_table ''2014-01-01'' ''2014-12-31'')
           = Inr [(1, Some 10, None), (2, Some 20, Some 20), (3, Some 30, Some 30),
                  (4, None, Some 40)]"
proof -
  let ?fd = "feed_of search retrieve s e"
  from drop_duplicates_nonempty [OF assms(1)]
  obtain first others where dd: "drop_duplicates Symbol constituents = first # others"
    by (cases "drop_duplicates Symbol constituents") auto
  from drop_duplicates_subset [of Symbol constituents] dd
  have "first \<in> set constituents" by auto
  with assms(2) have ok: "fetch_returns search retrieve (Symbol first) s e \<noteq> None"
    by (auto simp: fetch_returns_def)
  from assms(2)
  have dist: "\<forall>r\<in>set constituents. distinct (map fst (?fd (Symbol r)))"
    by (auto simp: feed_of_def)
  from scrape_daily_returns_agrees [OF dd ok dist]
  obtain T where T: "scrape_daily_returns search retrieve constituents s e = Inr T"
    and a: "agrees ?fd (map Symbol (first # others)) T"
    by blast
  from drop_duplicates_keys [of Symbol constituents] dd
  have syms: "set (map Symbol (first # others)) = Symbol ` set constituents"
    by (simp only: set_map)
  from a have 1: "distinct (map fst (rows T))"
    by (simp add: agrees_def)
  from a have 2: "set (map fst (rows T)) = (\<Union>r\<in>set constituents. fst ` set (?fd (Symbol r)))"
    unfolding agrees_def syms by simp
  from a have "\<forall>(d, m)\<in>set (rows T).
                 \<forall>x. m x = (if x \<in> Symbol ` set constituents then map_of (?fd x) d else None)"
    unfolding agrees_def syms by simp
  then have 3: "\<forall>(d, m)\<in>set (rows T). \<forall>r\<in>set constituents.
                  m (Symbol r) = map_of (?fd (Symbol r)) d"
    by (simp add: case_prod_beta)
  from T 1 2 3
  have "\<exists>T. scrape_daily_returns search retrieve constituents s e = Inr T
            \<and> set (map fst (rows T))
                = (\<Union>r\<in>set constituents. fst ` set (?fd (Symbol r)))
            \<and> distinct (map fst (rows T))
            \<and> (\<forall>(d, m)\<in>set (rows T). \<forall>r\<in>set constituents.
                  m (Symbol r) = map_of (?fd (Symbol r)) d)"
    by (intro exI [of _ T] conjI)
  from this xy_table_eval show ?thesis by (rule conjI)
qed

theorem scrape_daily_returns_union_witness:
  "xy_table \<noteq> []
   \<and> xy_search ''X'' = Some ''X''
   \<and> xy_history ''X'' ''2014-01-01'' ''2014-12-31'' = Some [(3, 30), (2, 20), (1, 10)]
   \<and> xy_search ''Y'' = Some ''Y''
   \<and> xy_history ''Y'' ''2014-01-01'' ''2014-12-31'' = Some [(4, 40), (3, 30), (2, 20)]
   \<and> map_sum id (\<lambda>T. distinct (map fst (rows T)))
         (scrape_daily_returns xy_search xy_history xy_table ''2014-01-01'' ''2014-12-31'')
       = Inr True"
proof -
  have n: "xy_table \<noteq> []"
    by (simp add: xy_table_def)
  have f: "\<forall>r\<in>set xy_table. \<exists>q feed.
             xy_search (Symbol r) = Some q \<and> xy_history q ''2014-01-01'' ''2014-12-31'' = Some feed
             \<and> distinct (map fst feed)"
    by (simp add: xy_table_def xy_search_def xy_history_def)
  have x: "xy_search ''X'' = Some ''X''"
    and y: "xy_search ''Y'' = Some ''Y''"
    by (simp_all add: xy_search_def)
  have hx: "xy_history ''X'' ''2014-01-01'' ''2014-12-31'' = Some [(3, 30), (2, 20), (1, 10)]"
    and hy: "xy_history ''Y'' ''2014-01-01'' ''2014-12-31'' = Some [(4, 40), (3, 30), (2, 20)]"
    by (simp_all add: xy_history_def)
  from scrape_daily_returns_union
         [where constituents = xy_table and search = xy_search and retrieve = xy_history
            and s = "''2014-01-01''" and e = "''2014-12-31''", OF n f]
  obtain T where "scrape_daily_returns xy_search xy_history xy_table ''2014-01-01''
                    ''2014-12-31'' = Inr T"
    and "distinct (map fst (rows T))"
    by blast
  then have t: "map_sum id (\<lambda>T. distinct (map fst (rows T)))
                  (scrape_daily_returns xy_search xy_history xy_table ''2014-01-01''
                     ''2014-12-31'')
                = Inr True"
    by simp
  show ?thesis
    by (rule conjI [OF n conjI [OF x conjI [OF hx conjI [OF y conjI [OF hy t]]]]])
qed

text \<open>
  Claim C2 says that the function returns a frame whenever the table has a row, also when
  the fetch of the first symbol fails. The first symbol is fetched outside the
  \<^verbatim>\<open>try\<close>: with \<open>Z\<close>, which the service does not know, as the first symbol of the table
  the exception leaves the function, although \<open>X\<close> and \<open>Y\<close> could be fetched.
\<close>

theorem first_fetch_failure_propagates:
  "scrape_daily_returns xy_search xy_history
     (\<lparr>Date = 1, Company = ''Z plc'', Symbol = ''Z''\<rparr> # xy_table) ''2014-01-01'' ''2014-12-31''
   = Inl FetchError"
  by (simp add: scrape_daily_returns_def xy_table_def fetch_returns_def xy_search_def)


end
